theory Spec2Isabelle
  imports Complex_Main "HOL-Library.Log_Nat"
begin

section \<open>Numbers and constants\<close>

text \<open>
  The program is TypeScript; every quantity it computes with is a JavaScript \<open>number\<close>,
  an IEEE binary64 double.

  The Limiter's timestamps and waits are modelled as exact rationals, so that
  \<open>wait / 1000\<close> and \<open>2 ** k\<close> for any integer \<open>k\<close> have their mathematical value.
  \<open>Date.now()\<close> returns a whole number of milliseconds of magnitude at most \<open>8.64e15\<close>,
  below \<open>2^53\<close>, and the Limiter adds at most \<open>30000\<close> to it, so on the values the
  Limiter can hold every sum, difference and comparison of the code is exact.
  \<open>consecutiveHits\<close> starts at \<open>0\<close> and is only ever incremented or reset to \<open>0\<close>, so
  it is an integer.

  The Counter's value has no such bound: \<open>increment\<close> and \<open>decrement\<close> add and subtract
  whatever number they are given. Its arithmetic is modelled as binary64 arithmetic
  (section on doubles below).
\<close>

type_synonym number = rat

definition BASE_WAIT_TIME :: number where
  "BASE_WAIT_TIME = 500"

definition MAX_WAIT_TIME :: number where
  "MAX_WAIT_TIME = 30000"

definition GRACE_PERIOD :: number where
  "GRACE_PERIOD = 3000"

section \<open>The Limiter durable object\<close>

record limiter =
  nextAllowedTime :: number
  consecutiveHits :: int

text \<open>The constructor: both fields start at \<open>0\<close>.\<close>

definition new_limiter :: limiter where
  "new_limiter = \<lparr>nextAllowedTime = 0, consecutiveHits = 0\<rparr>"

text \<open>
  Both methods read the clock themselves (\<open>const now = Date.now()\<close>); the reading is the
  first argument of the model. A method returns its result together with the object's
  state after the call.
\<close>

definition checkRateLimit :: "number \<Rightarrow> limiter \<Rightarrow> number \<times> limiter" where
  "checkRateLimit now this =
     (if now \<ge> nextAllowedTime this then (0, this)
      else (max 0 (nextAllowedTime this - now - GRACE_PERIOD), this))"

text \<open>
  \<open>Math.min(BASE_WAIT_TIME * 2 ** (this.consecutiveHits - 1), MAX_WAIT_TIME)\<close>, as a
  function of the value \<open>this.consecutiveHits\<close> has when the expression is evaluated
  (that is, after the increment).
\<close>

definition waitTime :: "int \<Rightarrow> number" where
  "waitTime hits = min (BASE_WAIT_TIME * 2 powi (hits - 1)) MAX_WAIT_TIME"

definition recordRequest :: "number \<Rightarrow> limiter \<Rightarrow> limiter" where
  "recordRequest now this =
     (if now \<ge> nextAllowedTime this then
        (let this1 = this\<lparr>consecutiveHits := 0\<rparr>
         in this1\<lparr>nextAllowedTime := now + BASE_WAIT_TIME\<rparr>)
      else
        (let this1 = this\<lparr>consecutiveHits := consecutiveHits this + 1\<rparr>;
             w = waitTime (consecutiveHits this1)
         in this1\<lparr>nextAllowedTime := max (nextAllowedTime this1) (now + w)\<rparr>))"

section \<open>Doubles\<close>

text \<open>
  A JavaScript number: a finite double, given by its exact value, one of the two
  infinities, or NaN. The two zeros are identified: the program cannot tell them apart
  (both are falsy, both print as \<open>0\<close>, and \<open>x + 0\<close> is \<open>x + (-0)\<close> for every \<open>x\<close> other
  than a zero).
\<close>

datatype jsnum = Fin rat | PosInfinity | NegInfinity | NaN

text \<open>The exponent \<open>e\<close> with \<open>2^e \<le> |x| < 2^(e+1)\<close>, for \<open>x \<noteq> 0\<close>.\<close>

definition binade :: "rat \<Rightarrow> int" where
  "binade x =
     (if 1 \<le> \<bar>x\<bar> then bitlen \<lfloor>\<bar>x\<bar>\<rfloor> - 1
      else - bitlen (\<lceil>1 / \<bar>x\<bar>\<rceil> - 1))"

definition round_half_even :: "rat \<Rightarrow> int" where
  "round_half_even r =
     (let f = \<lfloor>r\<rfloor>; d = r - of_int f
      in if d < 1 / 2 then f
         else if d > 1 / 2 then f + 1
         else if even f then f else f + 1)"

text \<open>
  Rounding of an exact result to binary64, to nearest with ties to even: 53 significant
  bits, the least exponent \<open>-1022\<close> (subnormal numbers below it), and overflow to an
  infinity from \<open>2^1024\<close> on.
\<close>

definition round_double :: "rat \<Rightarrow> jsnum" where
  "round_double x =
     (if x = 0 then Fin 0
      else
        (let ulp = 2 powi (max (binade x) (- 1022) - 52);
             r = of_int (round_half_even (x / ulp)) * ulp
         in if \<bar>r\<bar> \<ge> 2 ^ 1024 then (if x > 0 then PosInfinity else NegInfinity)
            else Fin r))"

fun js_neg :: "jsnum \<Rightarrow> jsnum" where
  "js_neg (Fin a) = Fin (- a)"
| "js_neg PosInfinity = NegInfinity"
| "js_neg NegInfinity = PosInfinity"
| "js_neg NaN = NaN"

text \<open>\<open>a + b\<close> on numbers.\<close>

fun js_add :: "jsnum \<Rightarrow> jsnum \<Rightarrow> jsnum" where
  "js_add (Fin a) (Fin b) = round_double (a + b)"
| "js_add NaN b = NaN"
| "js_add a NaN = NaN"
| "js_add PosInfinity NegInfinity = NaN"
| "js_add NegInfinity PosInfinity = NaN"
| "js_add PosInfinity b = PosInfinity"
| "js_add a PosInfinity = PosInfinity"
| "js_add NegInfinity b = NegInfinity"
| "js_add a NegInfinity = NegInfinity"

text \<open>\<open>a - b\<close> on numbers: in binary64 it is \<open>a + (-b)\<close>.\<close>

definition js_sub :: "jsnum \<Rightarrow> jsnum \<Rightarrow> jsnum" where
  "js_sub a b = js_add a (js_neg b)"

section \<open>The Counter durable object\<close>

text \<open>
  \<open>this.ctx.storage\<close> of one Counter instance: a key-value store in which the program
  only ever puts numbers, under the single key \<open>"value"\<close>.
\<close>

type_synonym storage = "string \<rightharpoonup> jsnum"

text \<open>
  \<open>(await this.ctx.storage.get<number>("value")) || 0\<close>: an absent entry reads as
  \<open>undefined\<close>, and \<open>||\<close> replaces every falsy left operand (here \<open>undefined\<close>, \<open>0\<close>
  and \<open>NaN\<close>) by \<open>0\<close>.
\<close>

definition get_value_or_0 :: "storage \<Rightarrow> jsnum" where
  "get_value_or_0 st =
     (case st ''value'' of
        None \<Rightarrow> Fin 0
      | Some v \<Rightarrow> if v = Fin 0 \<or> v = NaN then Fin 0 else v)"

definition getCounterValue :: "storage \<Rightarrow> jsnum \<times> storage" where
  "getCounterValue st = (let v = get_value_or_0 st in (v, st))"

definition increment :: "jsnum \<Rightarrow> storage \<Rightarrow> jsnum \<times> storage" where
  "increment amount st =
     (let v = get_value_or_0 st;
          v = js_add v amount;
          st = st(''value'' \<mapsto> v)
      in (v, st))"

definition decrement :: "jsnum \<Rightarrow> storage \<Rightarrow> jsnum \<times> storage" where
  "decrement amount st =
     (let v = get_value_or_0 st;
          v = js_sub v amount;
          st = st(''value'' \<mapsto> v)
      in (v, st))"

section \<open>The worker: bindings, requests, responses\<close>

text \<open>
  The two namespaces bound in \<open>c.env\<close>. \<open>idFromName(name)\<close> followed by \<open>get(id)\<close>
  addresses the one instance that belongs to \<open>name\<close>, so a namespace is a function from
  names to instance states; an instance that was never addressed has the state its
  constructor gives it.
\<close>

record env =
  LIMITER :: "string \<Rightarrow> limiter"
  COUNTER :: "string \<Rightarrow> storage"

definition fresh_env :: env where
  "fresh_env = \<lparr>LIMITER = (\<lambda>name. new_limiter), COUNTER = (\<lambda>name. Map.empty)\<rparr>"

text \<open>
  A request, as far as the handlers look at it: the \<open>CF-Connecting-IP\<close> header, and the
  route the method and path match (\<open>GET /:name/value\<close>, \<open>POST /:name/increment\<close>,
  \<open>POST /:name/decrement\<close>, or none of them).
\<close>

datatype route =
    GetValue string
  | PostIncrement string
  | PostDecrement string
  | NoRoute

record request =
  cf_connecting_ip :: "string option"
  route :: route

datatype body =
    ValueBody jsnum
  | ErrorBody string number
  | TextBody string

record response =
  status :: nat
  body :: body

text \<open>
  Every call a handler makes on a durable-object stub, in the order the calls are made;
  a Limiter call carries the clock reading the method took.
\<close>

datatype rpc =
    CheckRateLimit string number
  | RecordRequest string number
  | GetCounterValue string
  | Increment string
  | Decrement string

fun is_record :: "rpc \<Rightarrow> bool" where
  "is_record (RecordRequest k t) = True"
| "is_record c = False"

fun is_counter_call :: "rpc \<Rightarrow> bool" where
  "is_counter_call (GetCounterValue n) = True"
| "is_counter_call (Increment n) = True"
| "is_counter_call (Decrement n) = True"
| "is_counter_call c = False"

fun clock_readings :: "rpc list \<Rightarrow> number list" where
  "clock_readings [] = []"
| "clock_readings (CheckRateLimit k t # cs) = t # clock_readings cs"
| "clock_readings (RecordRequest k t # cs) = t # clock_readings cs"
| "clock_readings (c # cs) = clock_readings cs"

text \<open>The result of a handler: the response, the stub calls it made, the state after.\<close>

type_synonym outcome = "response \<times> rpc list \<times> env"

text \<open>
  The three route handlers; \<open>obj.increment()\<close> and \<open>obj.decrement()\<close> pass no argument, so
  \<open>amount\<close> takes its default \<open>1\<close>. A request that matches no route gets the framework's
  404 response.
\<close>

definition routes :: "request \<Rightarrow> env \<Rightarrow> outcome" where
  "routes req e =
     (case route req of
        GetValue name \<Rightarrow>
          (let (v, st) = getCounterValue (COUNTER e name)
           in (\<lparr>status = 200, body = ValueBody v\<rparr>, [GetCounterValue name],
               e\<lparr>COUNTER := (COUNTER e)(name := st)\<rparr>))
      | PostIncrement name \<Rightarrow>
          (let (v, st) = increment (Fin 1) (COUNTER e name)
           in (\<lparr>status = 200, body = ValueBody v\<rparr>, [Increment name],
               e\<lparr>COUNTER := (COUNTER e)(name := st)\<rparr>))
      | PostDecrement name \<Rightarrow>
          (let (v, st) = decrement (Fin 1) (COUNTER e name)
           in (\<lparr>status = 200, body = ValueBody v\<rparr>, [Decrement name],
               e\<lparr>COUNTER := (COUNTER e)(name := st)\<rparr>))
      | NoRoute \<Rightarrow> (\<lparr>status = 404, body = TextBody ''404 Not Found''\<rparr>, [], e))"

text \<open>\<open>c.req.header("CF-Connecting-IP") || "global"\<close>: absent and empty are both falsy.\<close>

definition connecting_ip :: "request \<Rightarrow> string" where
  "connecting_ip req =
     (case cf_connecting_ip req of
        None \<Rightarrow> ''global''
      | Some h \<Rightarrow> if h = [] then ''global'' else h)"

text \<open>
  The rate-limit middleware. \<open>now_check\<close> is what \<open>Date.now()\<close> returns inside
  \<open>checkRateLimit\<close> and \<open>now_record\<close> what it returns inside \<open>recordRequest\<close>; \<open>next\<close> is
  the rest of the handler chain.
\<close>

definition rate_limit ::
  "number \<Rightarrow> number \<Rightarrow> (request \<Rightarrow> env \<Rightarrow> outcome) \<Rightarrow> request \<Rightarrow> env \<Rightarrow> outcome" where
  "rate_limit now_check now_record next req e =
     (let ip = connecting_ip req;
          (millisecondsToNextRequest, l) = checkRateLimit now_check (LIMITER e ip);
          e = e\<lparr>LIMITER := (LIMITER e)(ip := l)\<rparr>
      in if millisecondsToNextRequest > 0 then
           (\<lparr>status = 429,
             body = ErrorBody ''Rate limit exceeded'' (millisecondsToNextRequest / 1000)\<rparr>,
            [CheckRateLimit ip now_check], e)
         else
           (let e = e\<lparr>LIMITER := (LIMITER e)(ip := recordRequest now_record (LIMITER e ip))\<rparr>;
                (resp, calls, e) = next req e
            in (resp, [CheckRateLimit ip now_check, RecordRequest ip now_record] @ calls, e)))"

text \<open>The application from the rate limiter on (the CORS middleware runs before it).\<close>

definition app :: "number \<Rightarrow> number \<Rightarrow> request \<Rightarrow> env \<Rightarrow> outcome" where
  "app now_check now_record req e = rate_limit now_check now_record routes req e"

text \<open>The wait the limiter reports for a request, before anything is changed.\<close>

definition reported_wait :: "number \<Rightarrow> request \<Rightarrow> env \<Rightarrow> number" where
  "reported_wait now_check req e =
     fst (checkRateLimit now_check (LIMITER e (connecting_ip req)))"

section \<open>Observations on a handled request\<close>

definition record_calls :: "rpc list \<Rightarrow> nat" where
  "record_calls cs = length (filter is_record cs)"

definition counter_calls :: "rpc list \<Rightarrow> rpc list" where
  "counter_calls cs = filter is_counter_call cs"

section \<open>Example states and requests\<close>

text \<open>
  A worker in which only the Limiter of the key \<open>"global"\<close> (the key of a request without
  the \<open>CF-Connecting-IP\<close> header) has been used, and no Counter has been written.
\<close>

definition global_only :: "limiter \<Rightarrow> env" where
  "global_only l = fresh_env\<lparr>LIMITER := (LIMITER fresh_env)(''global'' := l)\<rparr>"

text \<open>The Limiter after one request at time \<open>1000\<close>.\<close>

definition armed_env :: env where
  "armed_env = global_only (recordRequest 1000 new_limiter)"

text \<open>The Limiter after five requests at times \<open>1000\<close>, \<open>1001\<close>, \<open>1002\<close>, \<open>1003\<close>, \<open>1004\<close>.\<close>

definition hammered :: limiter where
  "hammered = \<lparr>nextAllowedTime = 5004, consecutiveHits = 4\<rparr>"

definition hammered_env :: env where
  "hammered_env = global_only hammered"

definition anonymous_get :: request where
  "anonymous_get = \<lparr>cf_connecting_ip = None, route = GetValue ''hits''\<rparr>"

definition anonymous_increment :: request where
  "anonymous_increment = \<lparr>cf_connecting_ip = None, route = PostIncrement ''hits''\<rparr>"

text \<open>
  A Counter on which \<open>increment(9007199254740991)\<close> was called once (the largest safe
  integer, \<open>2^53 - 1\<close>), and one on which \<open>increment(9007199254740992)\<close> was.
\<close>

definition max_safe_counter :: storage where
  "max_safe_counter = snd (increment (Fin 9007199254740991) Map.empty)"

definition max_safe_env :: env where
  "max_safe_env = fresh_env\<lparr>COUNTER := (COUNTER fresh_env)(''hits'' := max_safe_counter)\<rparr>"

definition beyond_safe_counter :: storage where
  "beyond_safe_counter = snd (increment (Fin 9007199254740992) Map.empty)"

section \<open>The two paths through the middleware\<close>

lemma checkRateLimit_snd: "snd (checkRateLimit now this) = this"
  by (simp add: checkRateLimit_def)

lemma routes_LIMITER: "LIMITER (snd (snd (routes req e))) = LIMITER e"
  by (simp add: routes_def split: route.split prod.split)

lemma routes_record_calls: "record_calls (fst (snd (routes req e))) = 0"
  by (simp add: routes_def record_calls_def split: route.split prod.split)

lemma routes_clock_readings: "clock_readings (fst (snd (routes req e))) = []"
  by (simp add: routes_def split: route.split prod.split)

lemma routes_status: "status (fst (routes req e)) \<noteq> 429"
  by (simp add: routes_def split: route.split prod.split)

lemma app_rejected:
  assumes "reported_wait t1 req e > 0"
  shows "app t1 t2 req e =
    (\<lparr>status = 429,
      body = ErrorBody ''Rate limit exceeded'' (reported_wait t1 req e / 1000)\<rparr>,
     [CheckRateLimit (connecting_ip req) t1], e)"
  using assms
  by (simp add: app_def rate_limit_def reported_wait_def checkRateLimit_snd Let_def
      case_prod_beta)

lemma app_admitted:
  assumes "\<not> reported_wait t1 req e > 0"
  shows "app t1 t2 req e =
    (let ip = connecting_ip req;
         e1 = e\<lparr>LIMITER := (LIMITER e)(ip := recordRequest t2 (LIMITER e ip))\<rparr>
     in (fst (routes req e1),
         CheckRateLimit ip t1 # RecordRequest ip t2 # fst (snd (routes req e1)),
         snd (snd (routes req e1))))"
  using assms
  by (simp add: app_def rate_limit_def reported_wait_def checkRateLimit_snd Let_def
      case_prod_beta)

section \<open>The example states are reached from a fresh worker\<close>

lemma connecting_ip_anonymous:
  "connecting_ip anonymous_get = ''global''"
  "connecting_ip anonymous_increment = ''global''"
  by (simp_all add: connecting_ip_def anonymous_get_def anonymous_increment_def)

lemma fresh_env_global_only: "fresh_env = global_only new_limiter"
  by (simp add: global_only_def fresh_env_def fun_eq_iff)

lemma anonymous_get_admitted:
  assumes "\<not> fst (checkRateLimit t l) > 0"
  shows "snd (snd (app t t anonymous_get (global_only l))) = global_only (recordRequest t l)"
proof -
  have "\<not> reported_wait t anonymous_get (global_only l) > 0"
    using assms by (simp add: reported_wait_def connecting_ip_anonymous global_only_def)
  moreover have "route anonymous_get = GetValue ''hits''"
    by (simp add: anonymous_get_def)
  ultimately show ?thesis
    by (simp add: app_admitted connecting_ip_anonymous Let_def routes_def getCounterValue_def
        global_only_def fresh_env_def)
qed

lemma armed_env_reached:
  "snd (snd (app 1000 1000 anonymous_get fresh_env)) = armed_env"
proof -
  have "\<not> fst (checkRateLimit 1000 new_limiter) > 0"
    by (simp add: checkRateLimit_def new_limiter_def)
  then show ?thesis
    by (simp add: fresh_env_global_only anonymous_get_admitted armed_env_def)
qed

lemma armed_limiter:
  "LIMITER armed_env ''global'' = \<lparr>nextAllowedTime = 1500, consecutiveHits = 0\<rparr>"
  by (simp add: armed_env_def global_only_def new_limiter_def recordRequest_def
      BASE_WAIT_TIME_def Let_def)

lemma hammered_env_reached:
  "snd (snd (app 1004 1004 anonymous_get (snd (snd (app 1003 1003 anonymous_get
     (snd (snd (app 1002 1002 anonymous_get (snd (snd (app 1001 1001 anonymous_get
       (snd (snd (app 1000 1000 anonymous_get fresh_env)))))))))))))) = hammered_env"
proof -
  have r1: "recordRequest 1000 new_limiter = \<lparr>nextAllowedTime = 1500, consecutiveHits = 0\<rparr>"
    and r2: "recordRequest 1001 \<lparr>nextAllowedTime = 1500, consecutiveHits = 0\<rparr>
               = \<lparr>nextAllowedTime = 1501, consecutiveHits = 1\<rparr>"
    and r3: "recordRequest 1002 \<lparr>nextAllowedTime = 1501, consecutiveHits = 1\<rparr>
               = \<lparr>nextAllowedTime = 2002, consecutiveHits = 2\<rparr>"
    and r4: "recordRequest 1003 \<lparr>nextAllowedTime = 2002, consecutiveHits = 2\<rparr>
               = \<lparr>nextAllowedTime = 3003, consecutiveHits = 3\<rparr>"
    and r5: "recordRequest 1004 \<lparr>nextAllowedTime = 3003, consecutiveHits = 3\<rparr>
               = hammered"
    by (simp_all add: recordRequest_def waitTime_def BASE_WAIT_TIME_def MAX_WAIT_TIME_def
        new_limiter_def hammered_def Let_def)
  have c1: "\<not> fst (checkRateLimit 1000 new_limiter) > 0"
    and c2: "\<not> fst (checkRateLimit 1001 \<lparr>nextAllowedTime = 1500, consecutiveHits = 0\<rparr>) > 0"
    and c3: "\<not> fst (checkRateLimit 1002 \<lparr>nextAllowedTime = 1501, consecutiveHits = 1\<rparr>) > 0"
    and c4: "\<not> fst (checkRateLimit 1003 \<lparr>nextAllowedTime = 2002, consecutiveHits = 2\<rparr>) > 0"
    and c5: "\<not> fst (checkRateLimit 1004 \<lparr>nextAllowedTime = 3003, consecutiveHits = 3\<rparr>) > 0"
    by (simp_all add: checkRateLimit_def GRACE_PERIOD_def new_limiter_def)
  show ?thesis
    by (simp add: fresh_env_global_only anonymous_get_admitted hammered_env_def
        c1 c2 c3 c4 c5 r1 r2 r3 r4 r5)
qed

lemma hammered_wait: "reported_wait 1005 anonymous_increment hammered_env = 999"
  by (simp add: reported_wait_def connecting_ip_anonymous hammered_env_def global_only_def
      hammered_def checkRateLimit_def GRACE_PERIOD_def)

lemma armed_wait: "reported_wait 1499 anonymous_increment armed_env = 0"
  by (simp add: reported_wait_def connecting_ip_anonymous armed_limiter checkRateLimit_def
      GRACE_PERIOD_def)

section \<open>Integers up to \<open>2^53\<close> are doubles\<close>

lemma round_half_even_of_int: "round_half_even (of_int m) = m"
  by (simp add: round_half_even_def)

lemma round_double_exact:
  assumes "x / 2 powi (max (binade x) (- 1022) - 52) = of_int m" and "\<bar>x\<bar> < 2 ^ 1024"
  shows "round_double x = Fin x"
proof (cases "x = 0")
  case True
  then show ?thesis by (simp add: round_double_def)
next
  case False
  have "of_int (round_half_even (x / 2 powi (max (binade x) (- 1022) - 52)))
          * 2 powi (max (binade x) (- 1022) - 52) = x"
    unfolding assms(1) round_half_even_of_int
    using assms(1)[symmetric] by simp
  then show ?thesis
    using False assms(2) by (simp add: round_double_def Let_def)
qed

lemma binade_of_int:
  assumes "n \<noteq> 0"
  shows "binade (of_int n) = bitlen \<bar>n\<bar> - 1"
proof -
  have "1 \<le> \<bar>n\<bar>" using assms by simp
  then have "(1::rat) \<le> \<bar>of_int n\<bar>"
    by (metis of_int_1_le_iff of_int_abs)
  moreover have "\<lfloor>\<bar>of_int n :: rat\<bar>\<rfloor> = \<bar>n\<bar>"
    by (simp flip: of_int_abs)
  ultimately show ?thesis by (simp add: binade_def)
qed

lemma round_double_of_int:
  assumes "\<bar>n\<bar> \<le> 2 ^ 53"
  shows "round_double (of_int n) = Fin (of_int n)"
proof (cases "n = 0")
  case True
  then show ?thesis by (simp add: round_double_def)
next
  case False
  then have pos: "0 < \<bar>n\<bar>" by simp
  define e where "e = bitlen \<bar>n\<bar> - 1"
  have b: "binade (of_int n) = e"
    using False by (simp add: binade_of_int e_def)
  have "\<bar>n\<bar> < 2 ^ nat 54" using assms by simp
  then have "bitlen \<bar>n\<bar> \<le> 54"
    by (simp add: bitlen_le_iff_power)
  then have hi: "e \<le> 53" by (simp add: e_def)
  have "bitlen \<bar>n\<bar> \<noteq> 0" using pos by (simp add: bitlen_eq_zero_iff)
  then have lo: "0 \<le> e" using bitlen_nonneg[of "\<bar>n\<bar>"] by (simp add: e_def)
  have m: "max e (- 1022) = e" using lo by simp
  have "\<exists>m. (of_int n :: rat) / 2 powi (e - 52) = of_int m"
  proof (cases "e = 53")
    case True
    then have "2 ^ nat 53 \<le> \<bar>n\<bar>"
      using bitlen_bounds[OF pos] by (simp add: e_def)
    then have "\<bar>n\<bar> = 2 ^ 53" using assms by simp
    then have "n = 2 ^ 53 \<or> n = - (2 ^ 53)" by linarith
    then show ?thesis
    proof
      assume "n = 2 ^ 53"
      then have "(of_int n :: rat) / 2 powi (e - 52) = of_int (2 ^ 52)"
        using True by simp
      then show ?thesis by blast
    next
      assume "n = - (2 ^ 53)"
      then have "(of_int n :: rat) / 2 powi (e - 52) = of_int (- (2 ^ 52))"
        using True by simp
      then show ?thesis by blast
    qed
  next
    case False
    then have le: "e \<le> 52" using hi by simp
    have "(2::rat) powi (e - 52) = inverse (2 powi (52 - e))"
      using power_int_minus[of "2::rat" "52 - e"] by simp
    also have "(2::rat) powi (52 - e) = 2 ^ nat (52 - e)"
      using le by (simp add: power_int_def)
    finally have "(of_int n :: rat) / 2 powi (e - 52) = of_int (n * 2 ^ nat (52 - e))"
      by (simp add: divide_inverse)
    then show ?thesis by blast
  qed
  then obtain m where
    "(of_int n :: rat) / 2 powi (max (binade (of_int n)) (- 1022) - 52) = of_int m"
    using b m by auto
  moreover have "\<bar>of_int n :: rat\<bar> < 2 ^ 1024"
  proof -
    have "\<bar>n\<bar> < 2 ^ 1024" using assms by simp
    then have "(of_int \<bar>n\<bar> :: rat) < of_int (2 ^ 1024)"
      by (simp only: of_int_less_iff)
    then show ?thesis by simp
  qed
  ultimately show ?thesis by (rule round_double_exact)
qed

lemma js_add_int:
  assumes "\<bar>a + b\<bar> \<le> 2 ^ 53"
  shows "js_add (Fin (of_int a)) (Fin (of_int b)) = Fin (of_int (a + b))"
  using round_double_of_int[OF assms] by simp

lemma js_sub_int:
  assumes "\<bar>a - b\<bar> \<le> 2 ^ 53"
  shows "js_sub (Fin (of_int a)) (Fin (of_int b)) = Fin (of_int (a - b))"
  using round_double_of_int[OF assms] by (simp add: js_sub_def)

text \<open>Beyond \<open>2^53\<close> an odd integer is not a double: \<open>2^53 + 1\<close> rounds to \<open>2^53\<close>.\<close>

lemma round_double_beyond_safe: "round_double 9007199254740993 = Fin 9007199254740992"
  by code_simp

lemma max_safe_counter_value: "max_safe_counter = [''value'' \<mapsto> Fin 9007199254740991]"
  using js_add_int[of 0 9007199254740991]
  by (simp add: max_safe_counter_def increment_def get_value_or_0_def Let_def)

lemma beyond_safe_counter_value: "beyond_safe_counter = [''value'' \<mapsto> Fin 9007199254740992]"
  using js_add_int[of 0 9007199254740992]
  by (simp add: beyond_safe_counter_def increment_def get_value_or_0_def Let_def)

text \<open>
  The value \<open>2^53\<close> is also what \<open>2^53\<close> requests \<open>POST /:name/increment\<close> leave: up to
  there, \<open>n\<close> calls of \<open>increment()\<close> on a new Counter count to \<open>n\<close>.
\<close>

lemma get_value_stored: "get_value_or_0 (st(''value'' \<mapsto> Fin (of_int k))) = Fin (of_int k)"
  by (simp add: get_value_or_0_def)

lemma increment_safe:
  assumes "get_value_or_0 st = Fin (of_int k)" and "\<bar>k + 1\<bar> \<le> 2 ^ 53"
  shows "increment (Fin 1) st =
    (Fin (of_int (k + 1)), st(''value'' \<mapsto> Fin (of_int (k + 1))))"
proof -
  have "js_add (Fin (of_int k)) (Fin (of_int 1)) = Fin (of_int (k + 1))"
    using assms(2) by (rule js_add_int)
  then show ?thesis by (simp add: increment_def assms(1) Let_def)
qed

lemma decrement_safe:
  assumes "get_value_or_0 st = Fin (of_int k)" and "\<bar>k - 1\<bar> \<le> 2 ^ 53"
  shows "decrement (Fin 1) st =
    (Fin (of_int (k - 1)), st(''value'' \<mapsto> Fin (of_int (k - 1))))"
proof -
  have "js_sub (Fin (of_int k)) (Fin (of_int 1)) = Fin (of_int (k - 1))"
    using assms(2) by (rule js_sub_int)
  then show ?thesis by (simp add: decrement_def assms(1) Let_def)
qed

lemma routes_increment:
  "COUNTER (snd (snd (routes \<lparr>cf_connecting_ip = h, route = PostIncrement name\<rparr> e))) name
     = snd (increment (Fin 1) (COUNTER e name))"
  by (simp add: routes_def split: prod.split)

lemma routes_decrement:
  "COUNTER (snd (snd (routes \<lparr>cf_connecting_ip = h, route = PostDecrement name\<rparr> e))) name
     = snd (decrement (Fin 1) (COUNTER e name))"
  by (simp add: routes_def split: prod.split)

lemma increments_count:
  assumes "n \<le> 2 ^ 53"
  shows "get_value_or_0 (((\<lambda>st. snd (increment (Fin 1) st)) ^^ n) Map.empty) = Fin (of_nat n)"
  using assms
proof (induction n)
  case 0
  then show ?case by (simp add: get_value_or_0_def)
next
  case (Suc n)
  let ?st = "((\<lambda>st. snd (increment (Fin 1) st)) ^^ n) Map.empty"
  have v: "get_value_or_0 ?st = Fin (of_int (int n))"
    using Suc by simp
  have "\<bar>int n + 1\<bar> \<le> 2 ^ 53" using Suc.prems by simp
  with v have "increment (Fin 1) ?st =
      (Fin (of_int (int n + 1)), ?st(''value'' \<mapsto> Fin (of_int (int n + 1))))"
    by (rule increment_safe)
  then have "get_value_or_0 (snd (increment (Fin 1) ?st)) = Fin (of_int (int n + 1))"
    by (simp only: snd_conv get_value_stored)
  moreover have "((\<lambda>st. snd (increment (Fin 1) st)) ^^ Suc n) Map.empty
      = snd (increment (Fin 1) ?st)"
    by simp
  moreover have "(of_int (int n + 1) :: rat) = of_nat (Suc n)"
    by simp
  ultimately show ?case by (simp only:)
qed

section \<open>Properties of the Limiter\<close>

text \<open>
  Claim C2. For every limiter state and every time \<open>now\<close>, \<open>checkRateLimit\<close> returns \<open>0\<close>
  when \<open>now \<ge> nextAllowedTime\<close> and otherwise \<open>max(0, nextAllowedTime - now - 3000)\<close>;
  and there are states and times with \<open>now < nextAllowedTime\<close> at which the returned
  wait is \<open>0\<close>.
\<close>

theorem checkRateLimit_wait:
  "fst (checkRateLimit now this) =
     (if now \<ge> nextAllowedTime this then 0
      else max 0 (nextAllowedTime this - now - 3000))
   \<and> (\<exists>now' this'. now' < nextAllowedTime this' \<and> fst (checkRateLimit now' this') = 0)"
proof
  show "fst (checkRateLimit now this) =
     (if now \<ge> nextAllowedTime this then 0
      else max 0 (nextAllowedTime this - now - 3000))"
    by (simp add: checkRateLimit_def GRACE_PERIOD_def)
next
  have "(100::number) < nextAllowedTime \<lparr>nextAllowedTime = 500, consecutiveHits = 0\<rparr>"
    by simp
  moreover have
    "fst (checkRateLimit 100 \<lparr>nextAllowedTime = 500, consecutiveHits = 0\<rparr>) = 0"
    by (simp add: checkRateLimit_def GRACE_PERIOD_def)
  ultimately show
    "\<exists>now' this'. now' < nextAllowedTime this' \<and> fst (checkRateLimit now' this') = 0"
    by blast
qed

text \<open>
  Claim C3. For every limiter state and every time \<open>now\<close>, \<open>recordRequest\<close> sets
  \<open>consecutiveHits\<close> to \<open>0\<close> and \<open>nextAllowedTime\<close> to \<open>now + 500\<close> if
  \<open>now \<ge> nextAllowedTime\<close>; otherwise it increments \<open>consecutiveHits\<close> and sets
  \<open>nextAllowedTime\<close> to the maximum of its old value and
  \<open>now + min(500 * 2^(consecutiveHits - 1), 30000)\<close>, with the incremented
  \<open>consecutiveHits\<close> in the exponent.
\<close>

theorem recordRequest_update:
  "recordRequest now this =
     (if now \<ge> nextAllowedTime this
      then \<lparr>nextAllowedTime = now + 500, consecutiveHits = 0\<rparr>
      else \<lparr>nextAllowedTime =
              max (nextAllowedTime this)
                  (now + min (500 * 2 powi ((consecutiveHits this + 1) - 1)) 30000),
            consecutiveHits = consecutiveHits this + 1\<rparr>)"
  by (simp add: recordRequest_def waitTime_def BASE_WAIT_TIME_def MAX_WAIT_TIME_def Let_def)

text \<open>
  Claim C4. For every limiter state and every time \<open>now\<close>, \<open>nextAllowedTime\<close> after
  \<open>recordRequest\<close> is at least its value before the call, in the open branch and in the
  penalized branch.
\<close>

theorem recordRequest_never_retreats:
  "nextAllowedTime this \<le> nextAllowedTime (recordRequest now this)"
  by (simp add: recordRequest_def BASE_WAIT_TIME_def Let_def)

text \<open>
  Claim C5. For every value of \<open>consecutiveHits\<close>, the wait computed in the penalized
  branch of \<open>recordRequest\<close>, \<open>min(500 * 2^(consecutiveHits - 1), 30000)\<close>, is at most
  \<open>30000\<close>; so one call of \<open>recordRequest\<close> never puts \<open>nextAllowedTime\<close> beyond the
  later of its old value and \<open>now + 30000\<close>.
\<close>

theorem waitTime_capped:
  "waitTime hits = min (500 * 2 powi (hits - 1)) 30000
   \<and> waitTime hits \<le> 30000
   \<and> nextAllowedTime (recordRequest now this) \<le> max (nextAllowedTime this) (now + 30000)"
  by (auto simp add: waitTime_def recordRequest_def BASE_WAIT_TIME_def MAX_WAIT_TIME_def
      Let_def)

text \<open>
  Claim C10. For every limiter state and every time \<open>now\<close>, \<open>checkRateLimit\<close> leaves
  \<open>nextAllowedTime\<close> and \<open>consecutiveHits\<close> as they were: it only reads the state.
\<close>

theorem checkRateLimit_pure:
  "snd (checkRateLimit now this) = this
   \<and> nextAllowedTime (snd (checkRateLimit now this)) = nextAllowedTime this
   \<and> consecutiveHits (snd (checkRateLimit now this)) = consecutiveHits this"
  by (simp add: checkRateLimit_def)

section \<open>Properties of the Gateway\<close>

text \<open>
  Claim C1, as stated: the Gateway calls \<open>recordRequest\<close> exactly once for every request,
  also for a rejected one, whose penalty it thereby escalates. It fails on the sixth
  request of a burst (times \<open>1000\<close> to \<open>1005\<close>): \<open>checkRateLimit\<close> reports a wait of
  \<open>999\<close>, the response is 429, no \<open>recordRequest\<close> call is made and the Limiter state is
  what it was, although \<open>recordRequest\<close> would have changed it.
\<close>

theorem rejected_request_not_recorded:
  "reported_wait 1005 anonymous_increment hammered_env = 999
   \<and> status (fst (app 1005 1005 anonymous_increment hammered_env)) = 429
   \<and> record_calls (fst (snd (app 1005 1005 anonymous_increment hammered_env))) = 0
   \<and> LIMITER (snd (snd (app 1005 1005 anonymous_increment hammered_env))) ''global'' = hammered
   \<and> recordRequest 1005 hammered \<noteq> hammered"
proof -
  have r: "recordRequest 1005 hammered \<noteq> hammered"
    by (simp add: recordRequest_def hammered_def Let_def)
  have a: "app 1005 1005 anonymous_increment hammered_env =
    (\<lparr>status = 429, body = ErrorBody ''Rate limit exceeded'' (999 / 1000)\<rparr>,
     [CheckRateLimit ''global'' 1005], hammered_env)"
    using app_rejected[of 1005 anonymous_increment hammered_env 1005]
    by (simp add: hammered_wait connecting_ip_anonymous)
  have h: "LIMITER hammered_env ''global'' = hammered"
    by (simp add: hammered_env_def global_only_def)
  show ?thesis
    using r a h by (simp add: hammered_wait record_calls_def)
qed

text \<open>
  Claim C1, amended. For every request that reaches the limiter, the Gateway calls
  \<open>recordRequest\<close> exactly once when \<open>checkRateLimit\<close> returns \<open>0\<close> (the admitted path),
  and not at all when it returns a positive wait (the request rejected with 429); a
  rejected request leaves the Limiter state of its key unchanged, an admitted one
  applies \<open>recordRequest\<close> to it.
\<close>

theorem record_iff_admitted:
  "record_calls (fst (snd (app t1 t2 req e))) = (if reported_wait t1 req e > 0 then 0 else 1)
   \<and> LIMITER (snd (snd (app t1 t2 req e))) (connecting_ip req) =
       (if reported_wait t1 req e > 0 then LIMITER e (connecting_ip req)
        else recordRequest t2 (LIMITER e (connecting_ip req)))"
proof (cases "reported_wait t1 req e > 0")
  case True
  then show ?thesis by (simp add: app_rejected record_calls_def)
next
  case False
  then show ?thesis
    using routes_record_calls[of req]
    by (simp add: app_admitted Let_def record_calls_def routes_LIMITER)
qed

theorem record_iff_admitted_witness:
  "record_calls (fst (snd (app 1499 1500 anonymous_increment armed_env))) = 1
   \<and> LIMITER (snd (snd (app 1499 1500 anonymous_increment armed_env))) ''global'' =
       \<lparr>nextAllowedTime = 2000, consecutiveHits = 0\<rparr>"
proof -
  have l: "recordRequest 1500 \<lparr>nextAllowedTime = 1500, consecutiveHits = 0\<rparr> =
      \<lparr>nextAllowedTime = 2000, consecutiveHits = 0\<rparr>"
    by (simp add: recordRequest_def BASE_WAIT_TIME_def Let_def)
  show ?thesis
    using record_iff_admitted[of 1499 1500 anonymous_increment armed_env] l
    by (simp add: armed_wait connecting_ip_anonymous armed_limiter)
qed

text \<open>
  Claim C6, as stated: the Gateway samples one timestamp and \<open>checkRateLimit\<close> and
  \<open>recordRequest\<close> both observe it. It fails for a request whose check reads the clock
  at \<open>1499\<close> and whose record reads it at \<open>1500\<close>: the two calls observe different
  values, and the Limiter ends in the state of the open branch, \<open>(2000, 0)\<close>, where
  \<open>recordRequest\<close> at the time of the check would have taken the penalized branch and
  ended in \<open>(1999, 1)\<close>.
\<close>

theorem check_and_record_read_clock_apart:
  "clock_readings (fst (snd (app 1499 1500 anonymous_increment armed_env))) = [1499, 1500]
   \<and> LIMITER (snd (snd (app 1499 1500 anonymous_increment armed_env))) ''global'' =
       \<lparr>nextAllowedTime = 2000, consecutiveHits = 0\<rparr>
   \<and> recordRequest 1499 (LIMITER armed_env ''global'') =
       \<lparr>nextAllowedTime = 1999, consecutiveHits = 1\<rparr>"
proof -
  have w: "\<not> reported_wait 1499 anonymous_increment armed_env > 0"
    by (simp add: armed_wait)
  have l: "recordRequest 1500 \<lparr>nextAllowedTime = 1500, consecutiveHits = 0\<rparr> =
      \<lparr>nextAllowedTime = 2000, consecutiveHits = 0\<rparr>"
    by (simp add: recordRequest_def BASE_WAIT_TIME_def Let_def)
  have l': "recordRequest 1499 \<lparr>nextAllowedTime = 1500, consecutiveHits = 0\<rparr> =
      \<lparr>nextAllowedTime = 1999, consecutiveHits = 1\<rparr>"
    by (simp add: recordRequest_def waitTime_def BASE_WAIT_TIME_def MAX_WAIT_TIME_def Let_def)
  show ?thesis
    using l l'
    by (simp add: app_admitted[OF w] Let_def routes_clock_readings routes_LIMITER
        connecting_ip_anonymous armed_limiter)
qed

text \<open>
  Claim C6, amended. For every request, \<open>checkRateLimit\<close> and \<open>recordRequest\<close> each read
  the clock themselves and the Gateway passes no timestamp to either. The check
  observes the reading taken inside \<open>checkRateLimit\<close>: that reading alone decides
  between 429 and admission. On the admitted path the record observes a second reading,
  taken inside \<open>recordRequest\<close>: the Limiter state after the request is \<open>recordRequest\<close>
  at that second reading, whatever the first one was. The two calls observe the same
  value only when the clock returns the same reading twice.
\<close>

theorem clock_read_per_call:
  "clock_readings (fst (snd (app t1 t2 req e))) =
     (if fst (checkRateLimit t1 (LIMITER e (connecting_ip req))) > 0 then [t1] else [t1, t2])
   \<and> (status (fst (app t1 t2 req e)) = 429) =
       (fst (checkRateLimit t1 (LIMITER e (connecting_ip req))) > 0)
   \<and> LIMITER (snd (snd (app t1 t2 req e))) (connecting_ip req) =
       (if fst (checkRateLimit t1 (LIMITER e (connecting_ip req))) > 0
        then LIMITER e (connecting_ip req)
        else recordRequest t2 (LIMITER e (connecting_ip req)))"
proof (cases "reported_wait t1 req e > 0")
  case True
  then have "fst (checkRateLimit t1 (LIMITER e (connecting_ip req))) > 0"
    by (simp add: reported_wait_def)
  with True show ?thesis by (simp add: app_rejected)
next
  case False
  then have "\<not> fst (checkRateLimit t1 (LIMITER e (connecting_ip req))) > 0"
    by (simp add: reported_wait_def)
  with False show ?thesis
    by (simp add: app_admitted Let_def routes_clock_readings routes_LIMITER routes_status)
qed

theorem clock_read_per_call_witness:
  "clock_readings (fst (snd (app 1400 1600 anonymous_get armed_env))) = [1400, 1600]
   \<and> status (fst (app 1400 1600 anonymous_get armed_env)) \<noteq> 429
   \<and> LIMITER (snd (snd (app 1400 1600 anonymous_get armed_env))) ''global'' =
       \<lparr>nextAllowedTime = 2100, consecutiveHits = 0\<rparr>
   \<and> recordRequest 1400 (LIMITER armed_env ''global'') =
       \<lparr>nextAllowedTime = 1900, consecutiveHits = 1\<rparr>"
proof -
  have c: "fst (checkRateLimit 1400 \<lparr>nextAllowedTime = 1500, consecutiveHits = 0\<rparr>) = 0"
    by (simp add: checkRateLimit_def GRACE_PERIOD_def)
  have l: "recordRequest 1600 \<lparr>nextAllowedTime = 1500, consecutiveHits = 0\<rparr> =
      \<lparr>nextAllowedTime = 2100, consecutiveHits = 0\<rparr>"
    by (simp add: recordRequest_def BASE_WAIT_TIME_def Let_def)
  have l': "recordRequest 1400 \<lparr>nextAllowedTime = 1500, consecutiveHits = 0\<rparr> =
      \<lparr>nextAllowedTime = 1900, consecutiveHits = 1\<rparr>"
    by (simp add: recordRequest_def waitTime_def BASE_WAIT_TIME_def MAX_WAIT_TIME_def Let_def)
  show ?thesis
    using clock_read_per_call[of 1400 1600 anonymous_get armed_env] c l l'
    by (simp add: connecting_ip_anonymous armed_limiter)
qed

text \<open>
  Claim C7. For every request whose check returns a wait greater than \<open>0\<close>, the response
  has status 429 and the body \<open>{"error": "Rate limit exceeded", "retryAfter": wait / 1000}\<close>,
  no Counter method is called, and every Counter is left as it was.
\<close>

theorem rejected_request_429:
  assumes "reported_wait t1 req e > 0"
  shows "fst (app t1 t2 req e) =
           \<lparr>status = 429,
             body = ErrorBody ''Rate limit exceeded'' (reported_wait t1 req e / 1000)\<rparr>
         \<and> counter_calls (fst (snd (app t1 t2 req e))) = []
         \<and> COUNTER (snd (snd (app t1 t2 req e))) = COUNTER e"
  using assms by (simp add: app_rejected counter_calls_def)

theorem rejected_request_429_witness:
  "reported_wait 1005 anonymous_increment hammered_env > 0
   \<and> fst (app 1005 1005 anonymous_increment hammered_env) =
       \<lparr>status = 429, body = ErrorBody ''Rate limit exceeded'' (999 / 1000)\<rparr>
   \<and> counter_calls (fst (snd (app 1005 1005 anonymous_increment hammered_env))) = []
   \<and> COUNTER (snd (snd (app 1005 1005 anonymous_increment hammered_env))) ''hits'' = Map.empty"
proof -
  have p: "reported_wait 1005 anonymous_increment hammered_env > 0"
    by (simp add: hammered_wait)
  have c: "COUNTER hammered_env ''hits'' = Map.empty"
    by (simp add: hammered_env_def global_only_def fresh_env_def)
  show ?thesis
    using rejected_request_429[OF p, of 1005] c by (simp add: hammered_wait)
qed

section \<open>Properties of the Counter\<close>

text \<open>
  Claim C8, as stated: for every starting counter value, \<open>increment(1)\<close> followed by
  \<open>decrement(1)\<close> leaves the counter value as it was. It fails on a Counter that holds
  \<open>2^53 = 9007199254740992\<close>: \<open>2^53 + 1\<close> is not a double and the sum rounds back to
  \<open>2^53\<close>, so \<open>increment\<close> returns \<open>2^53\<close> and \<open>decrement\<close> then stores and returns
  \<open>2^53 - 1\<close>.
\<close>

theorem increment_then_decrement_beyond_safe:
  "fst (getCounterValue beyond_safe_counter) = Fin 9007199254740992
   \<and> fst (increment (Fin 1) beyond_safe_counter) = Fin 9007199254740992
   \<and> fst (decrement (Fin 1) (snd (increment (Fin 1) beyond_safe_counter)))
       = Fin 9007199254740991
   \<and> fst (getCounterValue (snd (decrement (Fin 1) (snd (increment (Fin 1) beyond_safe_counter)))))
       = Fin 9007199254740991"
proof -
  have i: "increment (Fin 1) beyond_safe_counter =
      (Fin 9007199254740992, [''value'' \<mapsto> Fin 9007199254740992])"
    by (simp add: beyond_safe_counter_value increment_def get_value_or_0_def
        round_double_beyond_safe Let_def)
  have d: "decrement (Fin 1) [''value'' \<mapsto> Fin 9007199254740992] =
      (Fin 9007199254740991, [''value'' \<mapsto> Fin 9007199254740991])"
    using js_sub_int[of 9007199254740992 1]
    by (simp add: decrement_def get_value_or_0_def Let_def)
  show ?thesis
    by (simp add: i d) (simp add: beyond_safe_counter_value getCounterValue_def get_value_or_0_def)
qed

text \<open>
  Claim C8, amended. For every key and every starting counter value that is a safe
  integer (an integer \<open>n\<close> with \<open>|n| \<le> 2^53 - 1 = 9007199254740991\<close>), \<open>increment(1)\<close>
  followed by \<open>decrement(1)\<close> on that key's Counter leaves the counter value equal to its
  value before the two calls: \<open>decrement\<close> returns it, the entry stored under \<open>"value"\<close>
  holds it, \<open>getCounterValue\<close> reads it, and the same holds for the route handlers
  \<open>POST /:name/increment\<close> and \<open>POST /:name/decrement\<close> run one after the other.
\<close>

theorem increment_then_decrement:
  assumes "fst (getCounterValue (COUNTER e name)) = Fin (of_int n)"
    and "\<bar>n\<bar> \<le> 9007199254740991"
  shows
    "fst (getCounterValue (snd (decrement (Fin 1) (snd (increment (Fin 1) (COUNTER e name))))))
       = fst (getCounterValue (COUNTER e name))
     \<and> fst (decrement (Fin 1) (snd (increment (Fin 1) (COUNTER e name))))
       = fst (getCounterValue (COUNTER e name))
     \<and> snd (decrement (Fin 1) (snd (increment (Fin 1) (COUNTER e name))))
       = (COUNTER e name)(''value'' \<mapsto> fst (getCounterValue (COUNTER e name)))
     \<and> fst (getCounterValue
          (COUNTER (snd (snd (routes \<lparr>cf_connecting_ip = h2, route = PostDecrement name\<rparr>
             (snd (snd (routes \<lparr>cf_connecting_ip = h1, route = PostIncrement name\<rparr> e))))))
           name))
       = fst (getCounterValue (COUNTER e name))"
proof -
  let ?st = "COUNTER e name"
  let ?st1 = "?st(''value'' \<mapsto> Fin (of_int (n + 1)))"
  have v: "get_value_or_0 ?st = Fin (of_int n)"
    using assms(1) by (simp add: getCounterValue_def)
  have "\<bar>n + 1\<bar> \<le> 2 ^ 53" using assms(2) by simp
  with v have "increment (Fin 1) ?st = (Fin (of_int (n + 1)), ?st1)"
    by (rule increment_safe)
  then have i: "snd (increment (Fin 1) ?st) = ?st1"
    by (simp only: snd_conv)
  have "\<bar>(n + 1) - 1\<bar> \<le> 2 ^ 53" using assms(2) by simp
  with get_value_stored have "decrement (Fin 1) ?st1 =
      (Fin (of_int ((n + 1) - 1)), ?st1(''value'' \<mapsto> Fin (of_int ((n + 1) - 1))))"
    by (rule decrement_safe)
  then have d: "decrement (Fin 1) ?st1 = (Fin (of_int n), ?st(''value'' \<mapsto> Fin (of_int n)))"
    by simp
  have g: "fst (getCounterValue ?st) = Fin (of_int n)"
    by (rule assms(1))
  have r: "fst (getCounterValue (?st(''value'' \<mapsto> Fin (of_int n)))) = Fin (of_int n)"
    by (simp add: getCounterValue_def get_value_stored)
  show ?thesis
    by (simp only: routes_increment routes_decrement i d g r fst_conv snd_conv simp_thms)
qed

theorem increment_then_decrement_witness:
  "fst (getCounterValue (COUNTER max_safe_env ''hits'')) = Fin (of_int 9007199254740991)
   \<and> \<bar>9007199254740991 :: int\<bar> \<le> 9007199254740991
   \<and> fst (decrement (Fin 1) (snd (increment (Fin 1) (COUNTER max_safe_env ''hits''))))
       = Fin 9007199254740991
   \<and> fst (getCounterValue
        (snd (decrement (Fin 1) (snd (increment (Fin 1) (COUNTER max_safe_env ''hits''))))))
       = Fin 9007199254740991"
proof -
  have v: "fst (getCounterValue (COUNTER max_safe_env ''hits''))
      = Fin (of_int 9007199254740991)"
    by (simp add: max_safe_env_def max_safe_counter_value getCounterValue_def
        get_value_or_0_def)
  have b: "\<bar>9007199254740991 :: int\<bar> \<le> 9007199254740991" by simp
  note t = increment_then_decrement[OF v b]
  from t have c1: "fst (getCounterValue
        (snd (decrement (Fin 1) (snd (increment (Fin 1) (COUNTER max_safe_env ''hits''))))))
      = fst (getCounterValue (COUNTER max_safe_env ''hits''))"
    by (rule conjunct1)
  from t have c2: "fst (decrement (Fin 1) (snd (increment (Fin 1) (COUNTER max_safe_env ''hits''))))
      = fst (getCounterValue (COUNTER max_safe_env ''hits''))"
    by (rule conjunct2[THEN conjunct1])
  show ?thesis
    unfolding c1 c2 using v by simp
qed

end
